theory Spec2Isabelle
  imports Complex_Main
begin

section \<open>Data model\<close>

text \<open>
  A Python \<open>str\<close> is the list of its code points. A timestamp is the value returned by
  \<open>datetime.now()\<close>, supplied by the environment.
\<close>

type_synonym pystr = "nat list"
type_synonym timestamp = nat

text \<open>
  A Python \<open>float\<close>: a number, an infinity, or NaN. The program only compares floats,
  so a finite float is the real number it denotes. \<open>float_lt\<close> is Python's \<open><\<close> on
  floats: every comparison with NaN is false.
\<close>

datatype pyfloat = Number real | PosInf | NegInf | NaN

fun float_lt :: "pyfloat \<Rightarrow> pyfloat \<Rightarrow> bool" where
  "float_lt NaN y = False"
| "float_lt x NaN = False"
| "float_lt (Number a) (Number b) = (a < b)"
| "float_lt (Number a) PosInf = True"
| "float_lt (Number a) NegInf = False"
| "float_lt NegInf NegInf = False"
| "float_lt NegInf y = True"
| "float_lt PosInf y = False"

text \<open>
  A \<open>REAL\<close> column holds a float or \<open>NULL\<close> (\<open>None\<close>). SQLite stores a NaN that is
  bound to a parameter as \<open>NULL\<close>.
\<close>

definition bind_real :: "pyfloat \<Rightarrow> pyfloat option" where
  "bind_real v = (if v = NaN then None else Some v)"

text \<open>An ASCII literal as a Python string.\<close>

definition py :: "string \<Rightarrow> pystr" where
  "py s = map of_char s"

text \<open>The exceptions that the collaborators of the program raise.\<close>

datatype exn = RequestException | ValueError | TypeError | TelegramError | OperationalError

text \<open>One row of the table \<open>products\<close> created by \<open>init_db\<close>.\<close>

record product =
  prod_id :: nat
  user_id :: int
  product_url :: pystr
  product_name :: pystr
  last_price :: "pyfloat option"
  last_checked :: timestamp

text \<open>
  What the two \<open>soup.find\<close> calls see in a fetched page: the text of the first
  \<open>span\<close> with id \<open>productTitle\<close> and of the first \<open>span\<close> of class
  \<open>a-offscreen\<close>, \<open>None\<close> where \<open>find\<close> returns \<open>None\<close>. A response is
  either such a page or the exception raised by \<open>requests.get\<close> or the parser.
\<close>

record page =
  title_tag :: "pystr option"
  price_tag :: "pystr option"

type_synonym response = "exn + page"

section \<open>String helpers\<close>

text \<open>The code points for which \<open>str.isspace\<close> holds; \<open>str.strip()\<close> removes them at both ends.\<close>

definition isspace :: "nat \<Rightarrow> bool" where
  "isspace c \<longleftrightarrow>
     (9 \<le> c \<and> c \<le> 13) \<or> (28 \<le> c \<and> c \<le> 32) \<or> c = 133 \<or> c = 160 \<or> c = 5760 \<or>
     (8192 \<le> c \<and> c \<le> 8202) \<or> c = 8232 \<or> c = 8233 \<or> c = 8239 \<or> c = 8287 \<or> c = 12288"

definition strip :: "pystr \<Rightarrow> pystr" where
  "strip s = rev (dropWhile isspace (rev (dropWhile isspace s)))"

text \<open>\<open>s.replace(c, "")\<close> for a one-character \<open>c\<close>: every occurrence is removed.\<close>

definition replace_empty :: "nat \<Rightarrow> pystr \<Rightarrow> pystr" where
  "replace_empty c s = filter (\<lambda>x. x \<noteq> c) s"

text \<open>The rupee sign U+20B9 and the comma.\<close>

definition rupee :: nat where
  "rupee = 8377"

definition comma :: nat where
  "comma = 44"

section \<open>Web scraping functions\<close>

text \<open>
  The body of the \<open>try\<close> block of \<open>get_product_name\<close>; \<open>Inl\<close> is an exception raised
  inside it.
\<close>

definition get_product_name_try :: "response \<Rightarrow> exn + pystr option" where
  "get_product_name_try resp =
     (case resp of
        Inl e \<Rightarrow> Inl e
      | Inr pg \<Rightarrow>
          (case title_tag pg of
             Some t \<Rightarrow> Inr (Some (strip t))
           | None \<Rightarrow> Inr None))"

text \<open>\<open>except Exception\<close>: the error is logged and \<open>None\<close> is returned.\<close>

definition get_product_name :: "response \<Rightarrow> pystr option" where
  "get_product_name resp =
     (case get_product_name_try resp of
        Inl e \<Rightarrow> None
      | Inr r \<Rightarrow> r)"

text \<open>
  The body of the \<open>try\<close> block of \<open>check_price\<close>. Python's built-in \<open>float\<close> is the
  parameter \<open>pyfloat\<close>: \<open>None\<close> where \<open>float\<close> raises \<open>ValueError\<close>.
\<close>

definition check_price_try ::
  "(pystr \<Rightarrow> pyfloat option) \<Rightarrow> response \<Rightarrow> exn + pyfloat option" where
  "check_price_try pyfloat resp =
     (case resp of
        Inl e \<Rightarrow> Inl e
      | Inr pg \<Rightarrow>
          (case price_tag pg of
             Some t \<Rightarrow>
               (let price_text = replace_empty comma (replace_empty rupee (strip t))
                in case pyfloat price_text of
                     None \<Rightarrow> Inl ValueError
                   | Some v \<Rightarrow> Inr (Some v))
           | None \<Rightarrow> Inr None))"

definition check_price :: "(pystr \<Rightarrow> pyfloat option) \<Rightarrow> response \<Rightarrow> pyfloat option" where
  "check_price pyfloat resp =
     (case check_price_try pyfloat resp of
        Inl e \<Rightarrow> None
      | Inr r \<Rightarrow> r)"

text \<open>
  A stand-in for \<open>float\<close> on concrete inputs: on a non-empty string of ASCII digits it
  returns the number that \<open>float\<close> returns, on the text \<open>nan\<close> it returns NaN as
  \<open>float\<close> does; every other string is rejected.
\<close>

definition digits_float :: "pystr \<Rightarrow> pyfloat option" where
  "digits_float s =
     (if s \<noteq> [] \<and> list_all (\<lambda>c. 48 \<le> c \<and> c \<le> 57) s
      then Some (Number (real (foldl (\<lambda>n c. 10 * n + (c - 48)) 0 s)))
      else if s = py ''nan'' then Some NaN
      else None)"

section \<open>Tracking store\<close>

text \<open>
  The table is the list of its rows in the order \<open>SELECT\<close> returns them. The id column is
  \<open>INTEGER PRIMARY KEY AUTOINCREMENT\<close>: a new row gets an id one larger than the largest
  id of the table.
\<close>

definition next_id :: "product list \<Rightarrow> nat" where
  "next_id tbl = Suc (foldr max (map prod_id tbl) 0)"

definition insert_product ::
  "product list \<Rightarrow> int \<Rightarrow> pystr \<Rightarrow> pystr \<Rightarrow> pyfloat \<Rightarrow> timestamp \<Rightarrow> product list" where
  "insert_product tbl uid url name price t =
     tbl @ [\<lparr>prod_id = next_id tbl, user_id = uid, product_url = url, product_name = name,
             last_price = bind_real price, last_checked = t\<rparr>]"

text \<open>\<open>UPDATE products SET last_price = ?, last_checked = ? WHERE id = ?\<close>\<close>

definition update_price ::
  "product list \<Rightarrow> pyfloat \<Rightarrow> timestamp \<Rightarrow> nat \<Rightarrow> product list" where
  "update_price tbl price t pid =
     map (\<lambda>r. if prod_id r = pid
              then r\<lparr>last_price := bind_real price, last_checked := t\<rparr> else r) tbl"

text \<open>The primary key: no two rows share an id.\<close>

definition primary_key :: "product list \<Rightarrow> bool" where
  "primary_key tbl \<longleftrightarrow> distinct (map prod_id tbl)"

section \<open>Subscription registrar: \<open>handle_link\<close>\<close>

text \<open>
  What the world does during one call of \<open>handle_link\<close>: the responses to the two page
  fetches, whether the \<open>INSERT\<close> (connect, execute, commit) raises, the clock, and
  whether the \<open>reply_text\<close> of the confirmation, which is inside the \<open>try\<close> block,
  raises.
\<close>

record reg_env =
  name_response :: response
  price_response :: response
  insert_error :: "exn option"
  insert_time :: timestamp
  confirm_error :: "exn option"

text \<open>
  The four replies of \<open>handle_link\<close>, in the order of the source. The reply of a call is
  the text of its last \<open>reply_text\<close>; when the confirmation raises, that is the text
  sent by the \<open>except\<close> clause. Whether the last \<open>reply_text\<close> itself raises (the
  exception would leave \<open>handle_link\<close>) is not modelled.
\<close>

datatype reply =
    Added pystr pyfloat
  | AddError
  | PriceFailed
  | ParseFailed

text \<open>The calls \<open>handle_link\<close> makes, in order.\<close>

datatype step =
    ResolveName pystr
  | ResolvePrice pystr
  | InsertRow int pystr pystr pyfloat timestamp

record reg_result =
  store :: "product list"
  replied :: reply
  steps :: "step list"

text \<open>\<open>if product_name:\<close> holds for a string that is neither \<open>None\<close> nor empty.\<close>

definition truthy :: "pystr option \<Rightarrow> bool" where
  "truthy v \<longleftrightarrow> (case v of None \<Rightarrow> False | Some s \<Rightarrow> s \<noteq> [])"

definition handle_link ::
  "(pystr \<Rightarrow> pyfloat option) \<Rightarrow> reg_env \<Rightarrow> int \<Rightarrow> pystr \<Rightarrow> product list \<Rightarrow> reg_result" where
  "handle_link pyfloat env uid text tbl =
     (let product_url = strip text;
          product_name = get_product_name (name_response env)
      in if truthy product_name then
           (case check_price pyfloat (price_response env) of
              Some current_price \<Rightarrow>
                (case insert_error env of
                   None \<Rightarrow>
                     \<lparr>store = insert_product tbl uid product_url (the product_name)
                                current_price (insert_time env),
                      replied = (case confirm_error env of
                                   None \<Rightarrow> Added (the product_name) current_price
                                 | Some e \<Rightarrow> AddError),
                      steps = [ResolveName product_url, ResolvePrice product_url,
                               InsertRow uid product_url (the product_name) current_price
                                 (insert_time env)]\<rparr>
                 | Some e \<Rightarrow>
                     \<lparr>store = tbl, replied = AddError,
                      steps = [ResolveName product_url, ResolvePrice product_url,
                               InsertRow uid product_url (the product_name) current_price
                                 (insert_time env)]\<rparr>)
            | None \<Rightarrow>
                \<lparr>store = tbl, replied = PriceFailed,
                 steps = [ResolveName product_url, ResolvePrice product_url]\<rparr>)
         else \<lparr>store = tbl, replied = ParseFailed, steps = [ResolveName product_url]\<rparr>)"

section \<open>Price-check cycle: \<open>check_all_prices\<close>\<close>

text \<open>The text of a notification: name, old price, new price, URL.\<close>

datatype message = PriceDrop pystr pyfloat pyfloat pystr

text \<open>
  What the world does while the loop handles one row: the response to the page fetch,
  whether \<open>send_message\<close> raises, whether the \<open>UPDATE\<close> and its commit raise, and the
  clock.
\<close>

record outcome =
  response :: response
  delivery :: "exn option"
  writing :: "exn option"
  clock :: timestamp

text \<open>
  What the world does during one cycle: whether connecting and the \<open>SELECT\<close> raise, and
  the outcome for the row at each position of the fetched list.
\<close>

record cycle_env =
  select_error :: "exn option"
  item_at :: "nat \<Rightarrow> outcome"

text \<open>The calls of a cycle, each tagged with the id of the row being handled.\<close>

datatype event =
    Lookup nat pystr
  | Sent nat int message
  | SendFailed nat int message exn
  | Updated nat pyfloat timestamp
  | UpdateFailed nat exn

text \<open>
  The body of the \<open>for\<close> loop for one row \<open>p\<close> of the fetched list, on the table
  \<open>tbl\<close>: the exception that leaves the body (if any), the table, and the calls made.
  When the row's \<open>last_price\<close> is \<open>NULL\<close>, the comparison of a float with \<open>None\<close>
  raises \<open>TypeError\<close>.
\<close>

definition check_item ::
  "(pystr \<Rightarrow> pyfloat option) \<Rightarrow> outcome \<Rightarrow> product \<Rightarrow> product list
     \<Rightarrow> exn option \<times> product list \<times> event list" where
  "check_item pyfloat oc p tbl =
     (case check_price pyfloat (response oc) of
        None \<Rightarrow> (None, tbl, [Lookup (prod_id p) (product_url p)])
      | Some current_price \<Rightarrow>
        (case last_price p of
           None \<Rightarrow> (Some TypeError, tbl, [Lookup (prod_id p) (product_url p)])
         | Some old_price \<Rightarrow>
          if float_lt current_price old_price then
            (let message = PriceDrop (product_name p) old_price current_price
                             (product_url p)
             in case delivery oc of
                  Some e \<Rightarrow>
                    (Some e, tbl,
                     [Lookup (prod_id p) (product_url p),
                      SendFailed (prod_id p) (user_id p) message e])
                | None \<Rightarrow>
                    (case writing oc of
                       Some e \<Rightarrow>
                         (Some e, tbl,
                          [Lookup (prod_id p) (product_url p),
                           Sent (prod_id p) (user_id p) message,
                           UpdateFailed (prod_id p) e])
                     | None \<Rightarrow>
                         (None, update_price tbl current_price (clock oc) (prod_id p),
                          [Lookup (prod_id p) (product_url p),
                           Sent (prod_id p) (user_id p) message,
                           Updated (prod_id p) current_price (clock oc)])))
          else (None, tbl, [Lookup (prod_id p) (product_url p)])))"

text \<open>
  The \<open>for\<close> loop over the fetched rows, from position \<open>i\<close> on. An exception leaves the
  loop: the rows after it are not visited.
\<close>

fun check_loop ::
  "(pystr \<Rightarrow> pyfloat option) \<Rightarrow> (nat \<Rightarrow> outcome) \<Rightarrow> nat \<Rightarrow> product list \<Rightarrow> product list
     \<Rightarrow> exn option \<times> product list \<times> event list" where
  "check_loop pyfloat env i [] tbl = (None, tbl, [])"
| "check_loop pyfloat env i (p # ps) tbl =
     (case check_item pyfloat (env i) p tbl of
        (Some e, tbl', evs) \<Rightarrow> (Some e, tbl', evs)
      | (None, tbl', evs) \<Rightarrow>
          (case check_loop pyfloat env (Suc i) ps tbl' of
             (err, tbl'', evs') \<Rightarrow> (err, tbl'', evs @ evs')))"

text \<open>
  The result of a cycle: the table, the calls made, and the exception caught and logged
  by the \<open>except\<close> clause around the whole function (\<open>None\<close> when the \<open>try\<close> block ends
  normally).
\<close>

record cycle_result =
  table :: "product list"
  trace :: "event list"
  logged :: "exn option"

definition check_all_prices ::
  "(pystr \<Rightarrow> pyfloat option) \<Rightarrow> cycle_env \<Rightarrow> product list \<Rightarrow> cycle_result" where
  "check_all_prices pyfloat env tbl =
     (case select_error env of
        Some e \<Rightarrow> \<lparr>table = tbl, trace = [], logged = Some e\<rparr>
      | None \<Rightarrow>
          (case check_loop pyfloat (item_at env) 0 tbl tbl of
             (err, tbl', evs) \<Rightarrow> \<lparr>table = tbl', trace = evs, logged = err\<rparr>))"

section \<open>Notions used in the statements\<close>

text \<open>The condition of the loop: \<open>current_price is not None and current_price < last_price\<close>.\<close>

definition observed_drop :: "(pystr \<Rightarrow> pyfloat option) \<Rightarrow> outcome \<Rightarrow> product \<Rightarrow> bool" where
  "observed_drop pyfloat oc p \<longleftrightarrow>
     (case check_price pyfloat (response oc) of
        None \<Rightarrow> False
      | Some c \<Rightarrow> (case last_price p of None \<Rightarrow> False | Some old \<Rightarrow> float_lt c old))"

text \<open>
  The loop body for row \<open>p\<close> is left by an exception: a drop is observed and the send or
  the store write raises, or a price is observed for a row whose \<open>last_price\<close> is
  \<open>NULL\<close>.
\<close>

definition aborts :: "(pystr \<Rightarrow> pyfloat option) \<Rightarrow> outcome \<Rightarrow> product \<Rightarrow> bool" where
  "aborts pyfloat oc p \<longleftrightarrow>
     observed_drop pyfloat oc p \<and> (delivery oc \<noteq> None \<or> writing oc \<noteq> None) \<or>
     check_price pyfloat (response oc) \<noteq> None \<and> last_price p = None"

text \<open>The row an event belongs to, and the kinds of events.\<close>

fun tag :: "event \<Rightarrow> nat" where
  "tag (Lookup pid url) = pid"
| "tag (Sent pid uid m) = pid"
| "tag (SendFailed pid uid m e) = pid"
| "tag (Updated pid c t) = pid"
| "tag (UpdateFailed pid e) = pid"

fun is_lookup :: "event \<Rightarrow> bool" where
  "is_lookup (Lookup pid url) = True"
| "is_lookup e = False"

fun is_notification :: "event \<Rightarrow> bool" where
  "is_notification (Sent pid uid m) = True"
| "is_notification (SendFailed pid uid m e) = True"
| "is_notification e = False"

text \<open>The ids of the rows whose price was looked up, in the order of the lookups.\<close>

definition lookups :: "event list \<Rightarrow> nat list" where
  "lookups evs = map tag (filter is_lookup evs)"

text \<open>The notifications of a trace that belong to the row with id \<open>pid\<close>.\<close>

definition notifications_of :: "nat \<Rightarrow> event list \<Rightarrow> event list" where
  "notifications_of pid evs = filter (\<lambda>e. is_notification e \<and> tag e = pid) evs"

text \<open>
  In a trace, every store update directly follows the delivered notification of the same
  row and the same new price.
\<close>

fun send_before_update :: "event list \<Rightarrow> bool" where
  "send_before_update [] = True"
| "send_before_update (Sent pid uid (PriceDrop n old new url) # Updated pid' c t # evs) =
     (pid = pid' \<and> new = c \<and> send_before_update evs)"
| "send_before_update (Updated pid c t # evs) = False"
| "send_before_update (e # evs) = send_before_update evs"

section \<open>Concrete scenarios\<close>

text \<open>Two tracked items, and a page whose price tag holds a given text.\<close>

definition widget :: product where
  "widget = \<lparr>prod_id = 1, user_id = 7, product_url = py ''u1'', product_name = py ''Widget'',
              last_price = Some (Number 100), last_checked = 0\<rparr>"

definition gadget :: product where
  "gadget = \<lparr>prod_id = 2, user_id = 8, product_url = py ''u2'', product_name = py ''Gadget'',
              last_price = Some (Number 50), last_checked = 0\<rparr>"

definition priced :: "pystr \<Rightarrow> response" where
  "priced t = Inr \<lparr>title_tag = Some (py ''Widget''), price_tag = Some t\<rparr>"

text \<open>A cycle in which every page shows the price 90 and nothing fails.\<close>

definition all_fine :: cycle_env where
  "all_fine =
     \<lparr>select_error = None,
      item_at = (\<lambda>i. \<lparr>response = priced (rupee # py ''90''), delivery = None, writing = None,
                       clock = 6\<rparr>)\<rparr>"

text \<open>A cycle in which the page of the first row cannot be fetched.\<close>

definition lookup_fails_first :: cycle_env where
  "lookup_fails_first =
     \<lparr>select_error = None,
      item_at = (\<lambda>i. \<lparr>response = (if i = 0 then Inl RequestException
                                   else priced (rupee # py ''40'')),
                       delivery = None, writing = None, clock = 5\<rparr>)\<rparr>"

text \<open>A cycle in which \<open>send_message\<close> raises for the first row.\<close>

definition send_fails_first :: cycle_env where
  "send_fails_first =
     \<lparr>select_error = None,
      item_at = (\<lambda>i. \<lparr>response = priced (rupee # py ''90''),
                       delivery = (if i = 0 then Some TelegramError else None),
                       writing = None, clock = 5\<rparr>)\<rparr>"

text \<open>A cycle in which every store write raises.\<close>

definition write_fails :: cycle_env where
  "write_fails =
     \<lparr>select_error = None,
      item_at = (\<lambda>i. \<lparr>response = priced (rupee # py ''90''), delivery = None,
                       writing = Some OperationalError, clock = 5\<rparr>)\<rparr>"

text \<open>
  Registrar requests: the page cannot be fetched; the page has no title; all is well; the
  \<open>INSERT\<close> raises; the price text is \<open>nan\<close>.
\<close>

definition unreachable :: reg_env where
  "unreachable =
     \<lparr>name_response = Inl RequestException, price_response = Inl RequestException,
      insert_error = None, insert_time = 3, confirm_error = None\<rparr>"

definition untitled :: reg_env where
  "untitled =
     \<lparr>name_response = Inr \<lparr>title_tag = None, price_tag = Some (rupee # py ''90'')\<rparr>,
      price_response = Inr \<lparr>title_tag = None, price_tag = Some (rupee # py ''90'')\<rparr>,
      insert_error = None, insert_time = 3, confirm_error = None\<rparr>"

definition resolvable :: reg_env where
  "resolvable =
     \<lparr>name_response = priced (rupee # py ''1,299''),
      price_response = priced (rupee # py ''1,299''),
      insert_error = None, insert_time = 3, confirm_error = None\<rparr>"




section \<open>Floats\<close>

lemma float_lt_irrefl: "\<not> float_lt x x"
  by (cases x) simp_all

lemma float_lt_not_NaN: "float_lt x y \<Longrightarrow> x \<noteq> NaN \<and> y \<noteq> NaN"
  by (cases x; cases y) simp_all

lemma bind_real_lt: "float_lt x y \<Longrightarrow> bind_real x = Some x"
  by (auto simp: bind_real_def dest: float_lt_not_NaN)

section \<open>The loop body\<close>

lemma check_item_error: "fst (check_item f oc p tbl) \<noteq> None \<longleftrightarrow> aborts f oc p"
  by (auto simp: check_item_def aborts_def observed_drop_def Let_def split: option.splits)

lemma check_item_events: "snd (snd (check_item f oc p tbl)) = snd (snd (check_item f oc p []))"
  by (auto simp: check_item_def Let_def split: option.splits)

lemma check_item_table:
  "fst (snd (check_item f oc p tbl)) =
     (if observed_drop f oc p \<and> \<not> aborts f oc p
      then update_price tbl (the (check_price f (response oc))) (clock oc) (prod_id p)
      else tbl)"
  by (auto simp: check_item_def aborts_def observed_drop_def Let_def split: option.splits)

lemma check_item_tags: "e \<in> set (snd (snd (check_item f oc p tbl))) \<Longrightarrow> tag e = prod_id p"
  by (auto simp: check_item_def Let_def split: option.splits if_splits)

lemma check_item_no_drop:
  "\<not> observed_drop f oc p \<Longrightarrow>
     snd (check_item f oc p tbl) = (tbl, [Lookup (prod_id p) (product_url p)])"
  by (auto simp: check_item_def observed_drop_def split: option.splits)

lemma check_item_ordered: "send_before_update (snd (snd (check_item f oc p tbl)))"
  by (auto simp: check_item_def Let_def split: option.splits)

lemma check_item_updates:
  "Updated pid c t \<in> set (snd (snd (check_item f oc p tbl))) \<Longrightarrow>
     pid = prod_id p \<and> (\<exists>old. last_price p = Some old \<and> float_lt c old)"
  by (auto simp: check_item_def Let_def split: option.splits if_splits)

section \<open>The store\<close>

lemma update_price_ids: "map prod_id (update_price tbl c t pid) = map prod_id tbl"
  by (induction tbl) (auto simp: update_price_def)

lemma update_price_fresh: "pid \<notin> prod_id ` set tbl \<Longrightarrow> update_price tbl c t pid = tbl"
  by (induction tbl) (auto simp: update_price_def)

lemma update_price_split:
  assumes "distinct (map prod_id (pre @ p # ps))"
  shows "update_price (pre @ p # ps) c t (prod_id p) =
           pre @ p\<lparr>last_price := bind_real c, last_checked := t\<rparr> # ps"
proof -
  have "prod_id p \<notin> prod_id ` set pre" "prod_id p \<notin> prod_id ` set ps"
    using assms by auto
  then have "update_price pre c t (prod_id p) = pre" "update_price ps c t (prod_id p) = ps"
    by (simp_all add: update_price_fresh)
  then show ?thesis
    by (simp add: update_price_def)
qed

section \<open>The loop\<close>

lemma check_loop_Cons:
  "check_loop f env i (p # ps) tbl =
     (if aborts f (env i) p then check_item f (env i) p tbl
      else (fst (check_loop f env (Suc i) ps (fst (snd (check_item f (env i) p tbl)))),
            fst (snd (check_loop f env (Suc i) ps (fst (snd (check_item f (env i) p tbl))))),
            snd (snd (check_item f (env i) p tbl)) @
            snd (snd (check_loop f env (Suc i) ps (fst (snd (check_item f (env i) p tbl)))))))"
  using check_item_error [of f "env i" p tbl]
  by (cases "check_item f (env i) p tbl") (auto split: option.splits prod.splits)

declare check_loop.simps(2) [simp del]

lemma check_loop_ids: "map prod_id (fst (snd (check_loop f env i ps tbl))) = map prod_id tbl"
proof (induction ps arbitrary: i tbl)
  case Nil
  show ?case by simp
next
  case (Cons p ps)
  show ?case
    by (simp only: check_loop_Cons) (simp add: Cons check_item_table update_price_ids)
qed

lemma check_loop_error:
  "fst (check_loop f env i ps tbl) = None \<longleftrightarrow> (\<forall>k<length ps. \<not> aborts f (env (i + k)) (ps ! k))"
proof (induction ps arbitrary: i tbl)
  case Nil
  show ?case by simp
next
  case (Cons p ps)
  show ?case
    using check_item_error [of f "env i" p tbl]
    by (simp only: check_loop_Cons) (simp add: Cons All_less_Suc2)
qed

lemma check_loop_tags:
  "e \<in> set (snd (snd (check_loop f env i ps tbl))) \<Longrightarrow> tag e \<in> prod_id ` set ps"
proof (induction ps arbitrary: i tbl)
  case Nil
  then show ?case by simp
next
  case (Cons p ps)
  from Cons.prems show ?case
    by (simp only: check_loop_Cons) (auto dest: check_item_tags Cons.IH split: if_splits)
qed

lemma send_before_update_Sent:
  "send_before_update ys \<Longrightarrow> send_before_update (Sent pid uid m # ys)"
proof (cases ys)
  case Nil
  then show ?thesis by (cases m) simp
next
  case (Cons e es)
  assume "send_before_update ys"
  with Cons show ?thesis by (cases m; cases e) simp_all
qed

lemma send_before_update_append:
  "send_before_update xs \<Longrightarrow> send_before_update ys \<Longrightarrow> send_before_update (xs @ ys)"
  by (induction xs rule: send_before_update.induct) (auto simp: send_before_update_Sent)

lemma check_loop_ordered: "send_before_update (snd (snd (check_loop f env i ps tbl)))"
proof (induction ps arbitrary: i tbl)
  case Nil
  show ?case by simp
next
  case (Cons p ps)
  show ?case
    by (simp only: check_loop_Cons)
       (simp add: check_item_ordered Cons send_before_update_append)
qed

lemma check_loop_updates:
  "Updated pid c t \<in> set (snd (snd (check_loop f env i ps tbl))) \<Longrightarrow>
     \<exists>p\<in>set ps. prod_id p = pid \<and> (\<exists>old. last_price p = Some old \<and> float_lt c old)"
proof (induction ps arbitrary: i tbl)
  case Nil
  then show ?case by simp
next
  case (Cons p ps)
  from Cons.prems show ?case
    by (simp only: check_loop_Cons) (auto dest: check_item_updates Cons.IH split: if_splits)
qed


lemma check_loop_table:
  assumes "distinct (map prod_id (pre @ ps))"
  shows "\<exists>rows. fst (snd (check_loop f env i ps (pre @ ps))) = pre @ rows \<and>
           length rows = length ps \<and>
           (\<forall>j<length ps. rows ! j =
              (if (\<forall>k<Suc j. \<not> aborts f (env (i + k)) (ps ! k)) \<and>
                  observed_drop f (env (i + j)) (ps ! j)
               then (ps ! j)\<lparr>last_price := bind_real (the (check_price f (response (env (i + j))))),
                              last_checked := clock (env (i + j))\<rparr>
               else ps ! j))"
  using assms
proof (induction ps arbitrary: pre i)
  case Nil
  show ?case by simp
next
  case (Cons p ps)
  show ?case
  proof (cases "aborts f (env i) p")
    case True
    then have "fst (snd (check_loop f env i (p # ps) (pre @ p # ps))) = pre @ p # ps"
      by (simp only: check_loop_Cons) (simp add: check_item_table)
    moreover have "\<not> (\<forall>k<Suc j. \<not> aborts f (env (i + k)) ((p # ps) ! k))" for j
      using True by (auto simp: All_less_Suc2)
    ultimately show ?thesis
      by (intro exI [of _ "p # ps"]) (simp, blast)
  next
    case False
    define p' where "p' =
      (if observed_drop f (env i) p
       then p\<lparr>last_price := bind_real (the (check_price f (response (env i)))),
              last_checked := clock (env i)\<rparr>
       else p)"
    have id: "prod_id p' = prod_id p"
      by (simp add: p'_def)
    have item: "fst (snd (check_item f (env i) p (pre @ p # ps))) = pre @ p' # ps"
      using False update_price_split [OF Cons.prems]
      by (simp add: check_item_table p'_def)
    have "distinct (map prod_id ((pre @ [p']) @ ps))"
      using Cons.prems id by simp
    from Cons.IH [OF this, where i = "Suc i"] obtain rows where
      rows: "fst (snd (check_loop f env (Suc i) ps (pre @ p' # ps))) = pre @ p' # rows"
        "length rows = length ps"
        "\<forall>j<length ps. rows ! j =
              (if (\<forall>k<Suc j. \<not> aborts f (env (Suc i + k)) (ps ! k)) \<and>
                  observed_drop f (env (Suc i + j)) (ps ! j)
               then (ps ! j)\<lparr>last_price := bind_real (the (check_price f (response (env (Suc i + j))))),
                              last_checked := clock (env (Suc i + j))\<rparr>
               else ps ! j)"
      by auto
    have tbl: "fst (snd (check_loop f env i (p # ps) (pre @ p # ps))) = pre @ (p' # rows)"
      using False by (simp only: check_loop_Cons item) (simp add: rows(1))
    have row: "(p' # rows) ! j =
              (if (\<forall>k<Suc j. \<not> aborts f (env (i + k)) ((p # ps) ! k)) \<and>
                  observed_drop f (env (i + j)) ((p # ps) ! j)
               then ((p # ps) ! j)\<lparr>last_price := bind_real (the (check_price f (response (env (i + j))))),
                              last_checked := clock (env (i + j))\<rparr>
               else (p # ps) ! j)" if "j < length (p # ps)" for j
    proof (cases j)
      case 0
      then show ?thesis using False by (simp add: p'_def)
    next
      case (Suc j')
      then have "j' < length ps" using that by simp
      with rows(3) have "rows ! j' =
              (if (\<forall>k<Suc j'. \<not> aborts f (env (Suc i + k)) (ps ! k)) \<and>
                  observed_drop f (env (Suc i + j')) (ps ! j')
               then (ps ! j')\<lparr>last_price := bind_real (the (check_price f (response (env (Suc i + j'))))),
                              last_checked := clock (env (Suc i + j'))\<rparr>
               else ps ! j')"
        by blast
      moreover have "(\<forall>k<Suc (Suc j'). \<not> aborts f (env (i + k)) ((p # ps) ! k)) \<longleftrightarrow>
                     (\<forall>k<Suc j'. \<not> aborts f (env (Suc i + k)) (ps ! k))"
        using False by (simp add: All_less_Suc2 [of "Suc j'"])
      ultimately show ?thesis
        using Suc by auto
    qed
    from tbl rows(2) row show ?thesis
      by (intro exI [of _ "p' # rows"]) simp
  qed
qed

lemma check_loop_row_events:
  assumes "distinct (map prod_id ps)" and "j < length ps"
  shows "filter (\<lambda>e. tag e = prod_id (ps ! j)) (snd (snd (check_loop f env i ps tbl))) =
           (if \<forall>k<j. \<not> aborts f (env (i + k)) (ps ! k)
            then snd (snd (check_item f (env (i + j)) (ps ! j) []))
            else [])"
  using assms
proof (induction ps arbitrary: i j tbl)
  case Nil
  then show ?case by simp
next
  case (Cons p ps)
  show ?case
  proof (cases j)
    case 0
    have own: "filter (\<lambda>e. tag e = prod_id p) (snd (snd (check_item f (env i) p tbl))) =
                 snd (snd (check_item f (env i) p []))"
      using check_item_tags [of _ f "env i" p tbl] check_item_events [of f "env i" p tbl]
      by (simp add: filter_id_conv)
    have rest: "filter (\<lambda>e. tag e = prod_id p) (snd (snd (check_loop f env (Suc i) ps tbl'))) = []"
      for tbl'
      using Cons.prems(1) by (auto simp: filter_empty_conv dest!: check_loop_tags)
    from 0 show ?thesis
      by (simp only: check_loop_Cons) (simp add: own rest)
  next
    case (Suc j')
    then have j': "j' < length ps" using Cons.prems by simp
    then have "prod_id (ps ! j') \<in> prod_id ` set ps" by simp
    moreover have "prod_id p \<notin> prod_id ` set ps"
      using Cons.prems(1) by simp
    ultimately have "prod_id (ps ! j') \<noteq> prod_id p"
      by metis
    then have own: "filter (\<lambda>e. tag e = prod_id (ps ! j')) (snd (snd (check_item f (env i) p tbl))) = []"
      using check_item_tags [of _ f "env i" p tbl] by (auto simp: filter_empty_conv)
    have all: "(\<forall>k<Suc j'. \<not> aborts f (env (i + k)) ((p # ps) ! k)) \<longleftrightarrow>
                 \<not> aborts f (env i) p \<and> (\<forall>k<j'. \<not> aborts f (env (Suc i + k)) (ps ! k))"
      by (simp add: All_less_Suc2 [of j'])
    have "distinct (map prod_id ps)" using Cons.prems(1) by simp
    from Cons.IH [OF this j', where i = "Suc i"] show ?thesis
      unfolding Suc all by (simp only: check_loop_Cons) (auto simp: own)
  qed
qed

lemma notifications_of_tag:
  "notifications_of pid evs = filter is_notification (filter (\<lambda>e. tag e = pid) evs)"
  by (simp add: notifications_of_def conj_commute)

lemma check_loop_no_drop:
  "\<forall>k<length ps. \<not> observed_drop f (env (i + k)) (ps ! k) \<Longrightarrow>
     fst (snd (check_loop f env i ps tbl)) = tbl \<and>
     filter is_notification (snd (snd (check_loop f env i ps tbl))) = []"
proof (induction ps arbitrary: i tbl)
  case Nil
  show ?case by simp
next
  case (Cons p ps)
  from Cons.prems have p: "\<not> observed_drop f (env i) p"
    and ps: "\<forall>k<length ps. \<not> observed_drop f (env (Suc i + k)) (ps ! k)"
    by (auto simp: All_less_Suc2)
  from p have "snd (check_item f (env i) p tbl) = (tbl, [Lookup (prod_id p) (product_url p)])"
    by (rule check_item_no_drop)
  then have "fst (snd (check_item f (env i) p tbl)) = tbl"
    and "snd (snd (check_item f (env i) p tbl)) = [Lookup (prod_id p) (product_url p)]"
    by simp_all
  with Cons.IH [OF ps] show ?case
    by (simp only: check_loop_Cons) simp
qed

section \<open>Evaluation of the scenarios\<close>

lemmas scraping_defs =
  check_price_def check_price_try_def get_product_name_def get_product_name_try_def
  strip_def isspace_def replace_empty_def rupee_def comma_def digits_float_def py_def
  priced_def truthy_def

lemmas cycle_defs =
  check_all_prices_def check_loop.simps(2) check_item_def update_price_def bind_real_def
  lookups_def
  notifications_of_def observed_drop_def aborts_def primary_key_def widget_def gadget_def

lemma check_all_prices_select:
  "select_error env = None \<Longrightarrow>
     check_all_prices f env tbl =
       \<lparr>table = fst (snd (check_loop f (item_at env) 0 tbl tbl)),
        trace = snd (snd (check_loop f (item_at env) 0 tbl tbl)),
        logged = fst (check_loop f (item_at env) 0 tbl tbl)\<rparr>"
  by (simp add: check_all_prices_def split: prod.splits)

lemma check_all_prices_table:
  assumes "primary_key tbl" and "i < length tbl"
  shows "table (check_all_prices f env tbl) ! i =
           (if select_error env = None \<and>
               (\<forall>k<Suc i. \<not> aborts f (item_at env k) (tbl ! k)) \<and>
               observed_drop f (item_at env i) (tbl ! i)
            then (tbl ! i)\<lparr>last_price :=
                              bind_real (the (check_price f (response (item_at env i)))),
                            last_checked := clock (item_at env i)\<rparr>
            else tbl ! i)"
proof (cases "select_error env")
  case (Some e)
  then show ?thesis by (simp add: check_all_prices_def)
next
  case None
  from assms(1) have "distinct (map prod_id ([] @ tbl))"
    by (simp add: primary_key_def)
  from check_loop_table [OF this, of f "item_at env" 0] assms(2) None show ?thesis
    by (auto simp: check_all_prices_select simp del: All_less_Suc)
qed

lemma check_all_prices_row_events:
  assumes "primary_key tbl" and "i < length tbl" and "select_error env = None"
  shows "filter (\<lambda>e. tag e = prod_id (tbl ! i)) (trace (check_all_prices f env tbl)) =
           (if \<forall>k<i. \<not> aborts f (item_at env k) (tbl ! k)
            then snd (snd (check_item f (item_at env i) (tbl ! i) []))
            else [])"
proof -
  from assms(1) have "distinct (map prod_id tbl)"
    by (simp add: primary_key_def)
  from check_loop_row_events [OF this assms(2), of f "item_at env" 0 tbl] assms(3)
  show ?thesis
    by (auto simp: check_all_prices_select)
qed

lemma check_all_prices_length: "length (table (check_all_prices f env tbl)) = length tbl"
proof (cases "select_error env")
  case (Some e)
  then show ?thesis by (simp add: check_all_prices_def)
next
  case None
  with check_loop_ids [of f "item_at env" 0 tbl tbl] show ?thesis
    by (simp add: check_all_prices_select) (metis length_map)
qed

section \<open>The price-check cycle\<close>

text \<open>
  C1 on the code, at a failing input. The claim: a failure while processing one tracked
  item, a notification delivery failure included, does not abort the processing of the
  items after it in the same cycle. With two tracked items, \<open>send_message\<close> raises for
  the first: the exception leaves the \<open>for\<close> loop, is logged by the \<open>except\<close> clause
  around the whole function, and the second item is not looked up in that cycle. A lookup
  failure for the first item, which \<open>check_price\<close> handles itself, does not end the
  cycle: both items are looked up.
\<close>

theorem delivery_failure_ends_cycle:
  "delivery (item_at send_fails_first 0) = Some TelegramError \<and>
   length [widget, gadget] = 2 \<and>
   lookups (trace (check_all_prices digits_float send_fails_first [widget, gadget])) =
     [prod_id widget] \<and>
   logged (check_all_prices digits_float send_fails_first [widget, gadget]) =
     Some TelegramError \<and>
   check_price digits_float (response (item_at lookup_fails_first 0)) = None \<and>
   lookups (trace (check_all_prices digits_float lookup_fails_first [widget, gadget])) =
     [prod_id widget, prod_id gadget] \<and>
   logged (check_all_prices digits_float lookup_fails_first [widget, gadget]) = None"
  by (simp add: send_fails_first_def lookup_fails_first_def scraping_defs cycle_defs)


text \<open>
  C2, as the code has it. The claim fails when the delivery or the store write raises.
  The price 90 is observed for an item stored at 100. In the first cycle \<open>send_message\<close>
  raises: no \<open>UPDATE\<close> is issued and the store still holds 100. In the second cycle
  the notification is delivered and the store write raises: the store still holds 100.
\<close>

theorem drop_not_stored_on_failure:
  "check_price digits_float (response (item_at send_fails_first 0)) = Some (Number 90) \<and>
   last_price ([widget] ! 0) = Some (Number 100) \<and>
   float_lt (Number 90) (Number 100) \<and>
   trace (check_all_prices digits_float send_fails_first [widget]) =
     [Lookup 1 (py ''u1''),
      SendFailed 1 7 (PriceDrop (py ''Widget'') (Number 100) (Number 90) (py ''u1''))
        TelegramError] \<and>
   last_price (table (check_all_prices digits_float send_fails_first [widget]) ! 0) =
     Some (Number 100) \<and>
   check_price digits_float (response (item_at write_fails 0)) = Some (Number 90) \<and>
   notifications_of (prod_id widget) (trace (check_all_prices digits_float write_fails [widget])) =
     [Sent 1 7 (PriceDrop (py ''Widget'') (Number 100) (Number 90) (py ''u1''))] \<and>
   last_price (table (check_all_prices digits_float write_fails [widget]) ! 0) =
     Some (Number 100)"
  by (simp add: send_fails_first_def write_fails_def scraping_defs cycle_defs)

text \<open>
  C2, amended: for every tracked item, if the cycle's lookup for it succeeds (the rows
  were fetched and no earlier item left the loop by an exception), the observed new price
  is strictly less than the stored \<open>last_price\<close>, and the notification delivery and the
  store write for that item succeed, then exactly one notification is emitted for the
  item, to its subscriber, holding the display name, the old price, the new price and the
  product reference, and afterwards the store holds the new price as the item's
  \<open>last_price\<close> (and the time of the write as its \<open>last_checked\<close>).
\<close>

theorem drop_notifies_once_and_updates:
  assumes "primary_key tbl" and "select_error env = None" and "i < length tbl"
    and "\<forall>k<i. \<not> aborts pyfloat (item_at env k) (tbl ! k)"
    and "check_price pyfloat (response (item_at env i)) = Some c"
    and "last_price (tbl ! i) = Some old" and "float_lt c old"
    and "delivery (item_at env i) = None" and "writing (item_at env i) = None"
  shows "notifications_of (prod_id (tbl ! i)) (trace (check_all_prices pyfloat env tbl)) =
           [Sent (prod_id (tbl ! i)) (user_id (tbl ! i))
              (PriceDrop (product_name (tbl ! i)) old c (product_url (tbl ! i)))] \<and>
         table (check_all_prices pyfloat env tbl) ! i =
           (tbl ! i)\<lparr>last_price := Some c, last_checked := clock (item_at env i)\<rparr>"
proof -
  have drop: "observed_drop pyfloat (item_at env i) (tbl ! i)"
    using assms(5-7) by (simp add: observed_drop_def)
  have here: "\<not> aborts pyfloat (item_at env i) (tbl ! i)"
    using assms(6,8,9) by (simp add: aborts_def)
  have upto: "\<forall>k<Suc i. \<not> aborts pyfloat (item_at env k) (tbl ! k)"
    using assms(4) here by (simp add: less_Suc_eq)
  have "notifications_of (prod_id (tbl ! i)) (trace (check_all_prices pyfloat env tbl)) =
          filter is_notification (snd (snd (check_item pyfloat (item_at env i) (tbl ! i) [])))"
    using check_all_prices_row_events [OF assms(1,3,2), of pyfloat] assms(4)
    by (simp add: notifications_of_tag)
  moreover have "filter is_notification
                   (snd (snd (check_item pyfloat (item_at env i) (tbl ! i) []))) =
                 [Sent (prod_id (tbl ! i)) (user_id (tbl ! i))
                    (PriceDrop (product_name (tbl ! i)) old c (product_url (tbl ! i)))]"
    using assms(5-9) by (simp add: check_item_def)
  moreover have "table (check_all_prices pyfloat env tbl) ! i =
                   (tbl ! i)\<lparr>last_price := Some c, last_checked := clock (item_at env i)\<rparr>"
    using check_all_prices_table [OF assms(1,3), of pyfloat env] assms(2,5) drop upto
      bind_real_lt [OF assms(7)]
    by (simp del: All_less_Suc)
  ultimately show ?thesis by simp
qed

theorem drop_notifies_once_and_updates_witness:
  "primary_key [widget, gadget] \<and> select_error all_fine = None \<and>
   (0::nat) < length [widget, gadget] \<and>
   check_price digits_float (response (item_at all_fine 0)) = Some (Number 90) \<and>
   last_price ([widget, gadget] ! 0) = Some (Number 100) \<and>
   float_lt (Number 90) (Number 100) \<and>
   delivery (item_at all_fine 0) = None \<and> writing (item_at all_fine 0) = None \<and>
   notifications_of (prod_id ([widget, gadget] ! 0))
     (trace (check_all_prices digits_float all_fine [widget, gadget])) =
     [Sent (prod_id ([widget, gadget] ! 0)) (user_id ([widget, gadget] ! 0))
        (PriceDrop (product_name ([widget, gadget] ! 0)) (Number 100) (Number 90)
           (product_url ([widget, gadget] ! 0)))] \<and>
   table (check_all_prices digits_float all_fine [widget, gadget]) ! 0 =
     ([widget, gadget] ! 0)\<lparr>last_price := Some (Number 90),
                             last_checked := clock (item_at all_fine 0)\<rparr>"
proof -
  have pk: "primary_key [widget, gadget]"
    by (simp add: primary_key_def widget_def gadget_def)
  have sel: "select_error all_fine = None"
    by (simp add: all_fine_def)
  have len: "(0::nat) < length [widget, gadget]"
    by simp
  have before: "\<forall>k<0. \<not> aborts digits_float (item_at all_fine k) ([widget, gadget] ! k)"
    by simp
  have price: "check_price digits_float (response (item_at all_fine 0)) = Some (Number 90)"
    by (simp add: all_fine_def scraping_defs)
  have old: "last_price ([widget, gadget] ! 0) = Some (Number 100)"
    by (simp add: widget_def)
  have less: "float_lt (Number 90) (Number 100)"
    by simp
  have ok: "delivery (item_at all_fine 0) = None" "writing (item_at all_fine 0) = None"
    by (simp_all add: all_fine_def)
  from drop_notifies_once_and_updates [OF pk sel len before price old less ok]
    pk sel len price old less ok
  show ?thesis by blast
qed

text \<open>
  C3: for every tracked item, if the new price the cycle observes for it is greater than
  or equal to the stored \<open>last_price\<close> (it is not strictly less, the test of the code),
  or the lookup for it fails, then the cycle leaves the item's row as it is (so
  \<open>last_price\<close> and \<open>last_checked\<close> are unchanged) and its trace holds no notification
  for the item.
\<close>

theorem no_drop_leaves_item_unchanged:
  assumes "primary_key tbl" and "i < length tbl"
    and "check_price pyfloat (response (item_at env i)) = None \<or>
         (\<exists>c. check_price pyfloat (response (item_at env i)) = Some c \<and>
              (\<forall>old. last_price (tbl ! i) = Some old \<longrightarrow> \<not> float_lt c old))"
  shows "table (check_all_prices pyfloat env tbl) ! i = tbl ! i \<and>
         last_price (table (check_all_prices pyfloat env tbl) ! i) = last_price (tbl ! i) \<and>
         last_checked (table (check_all_prices pyfloat env tbl) ! i) = last_checked (tbl ! i) \<and>
         notifications_of (prod_id (tbl ! i)) (trace (check_all_prices pyfloat env tbl)) = []"
proof -
  have nodrop: "\<not> observed_drop pyfloat (item_at env i) (tbl ! i)"
    using assms(3) by (auto simp: observed_drop_def split: option.splits)
  have tbl: "table (check_all_prices pyfloat env tbl) ! i = tbl ! i"
    using check_all_prices_table [OF assms(1,2), of pyfloat env] nodrop
    by (simp del: All_less_Suc)
  have "notifications_of (prod_id (tbl ! i)) (trace (check_all_prices pyfloat env tbl)) = []"
  proof (cases "select_error env")
    case (Some e)
    then show ?thesis
      by (simp add: check_all_prices_def notifications_of_def)
  next
    case None
    from nodrop have "snd (snd (check_item pyfloat (item_at env i) (tbl ! i) [])) =
                        [Lookup (prod_id (tbl ! i)) (product_url (tbl ! i))]"
      by (simp add: check_item_no_drop)
    with check_all_prices_row_events [OF assms(1,2) None, of pyfloat] show ?thesis
      by (simp add: notifications_of_tag)
  qed
  with tbl show ?thesis by simp
qed

theorem no_drop_leaves_item_unchanged_witness:
  "primary_key [widget, gadget] \<and> (1::nat) < length [widget, gadget] \<and>
   check_price digits_float (response (item_at all_fine 1)) = Some (Number 90) \<and>
   last_price ([widget, gadget] ! 1) = Some (Number 50) \<and>
   \<not> float_lt (Number 90) (Number 50) \<and>
   table (check_all_prices digits_float all_fine [widget, gadget]) ! 1 = [widget, gadget] ! 1 \<and>
   notifications_of (prod_id ([widget, gadget] ! 1))
     (trace (check_all_prices digits_float all_fine [widget, gadget])) = []"
proof -
  have pk: "primary_key [widget, gadget]"
    by (simp add: primary_key_def widget_def gadget_def)
  have len: "(1::nat) < length [widget, gadget]"
    by simp
  have price: "check_price digits_float (response (item_at all_fine 1)) = Some (Number 90)"
    by (simp add: all_fine_def scraping_defs)
  have old: "last_price ([widget, gadget] ! 1) = Some (Number 50)"
    by (simp add: gadget_def)
  have ge: "\<not> float_lt (Number 90) (Number 50)"
    by simp
  from price old ge
  have "check_price digits_float (response (item_at all_fine 1)) = None \<or>
        (\<exists>c. check_price digits_float (response (item_at all_fine 1)) = Some c \<and>
             (\<forall>old. last_price ([widget, gadget] ! 1) = Some old \<longrightarrow> \<not> float_lt c old))"
    by simp
  from no_drop_leaves_item_unchanged [OF pk len this] pk len price old ge
  show ?thesis by blast
qed


section \<open>Invariants of the store\<close>

lemma check_all_prices_ids:
  "map prod_id (table (check_all_prices f env tbl)) = map prod_id tbl"
proof (cases "select_error env")
  case (Some e)
  then show ?thesis by (simp add: check_all_prices_def)
next
  case None
  with check_loop_ids [of f "item_at env" 0 tbl tbl] show ?thesis
    by (simp add: check_all_prices_select)
qed

lemma check_all_prices_primary_key:
  "primary_key tbl \<Longrightarrow> primary_key (table (check_all_prices f env tbl))"
  by (simp add: primary_key_def check_all_prices_ids)

lemma next_id_greater: "p \<in> set tbl \<Longrightarrow> prod_id p < next_id tbl"
  unfolding next_id_def by (induction tbl) auto

lemma next_id_fresh: "next_id tbl \<notin> prod_id ` set tbl"
proof
  assume "next_id tbl \<in> prod_id ` set tbl"
  then obtain p where "p \<in> set tbl" and "next_id tbl = prod_id p"
    by auto
  with next_id_greater [of p tbl] show False
    by simp
qed

lemma handle_link_store:
  "store (handle_link f env uid msg tbl) = tbl \<or>
   store (handle_link f env uid msg tbl) =
     tbl @ [\<lparr>prod_id = next_id tbl, user_id = uid, product_url = strip msg,
             product_name = the (get_product_name (name_response env)),
             last_price = bind_real (the (check_price f (price_response env))),
             last_checked = insert_time env\<rparr>]"
  by (auto simp: handle_link_def insert_product_def Let_def split: option.splits)

lemma handle_link_primary_key:
  "primary_key tbl \<Longrightarrow> primary_key (store (handle_link f env uid msg tbl))"
  using handle_link_store [of f env uid msg tbl] next_id_fresh [of tbl]
  by (auto simp: primary_key_def)

lemma primary_key_empty: "primary_key []"
  by (simp add: primary_key_def)

lemma check_all_prices_updates:
  "Updated pid c t \<in> set (trace (check_all_prices f env tbl)) \<Longrightarrow>
     \<exists>p\<in>set tbl. prod_id p = pid \<and> (\<exists>old. last_price p = Some old \<and> float_lt c old)"
proof (cases "select_error env")
  case (Some e)
  assume "Updated pid c t \<in> set (trace (check_all_prices f env tbl))"
  with Some show ?thesis by (simp add: check_all_prices_def)
next
  case None
  assume "Updated pid c t \<in> set (trace (check_all_prices f env tbl))"
  with None show ?thesis
    by (simp add: check_all_prices_select check_loop_updates)
qed

text \<open>
  C4: for every store state (a table whose ids are distinct, as the primary key makes
  them), a cycle leaves each row as it is or writes a strictly smaller \<open>last_price\<close>
  into it; every \<open>UPDATE\<close> the cycle issues writes a price strictly less than the one
  stored for that row; and the registrar leaves the rows that exist as they are. No
  operation increases a stored \<open>last_price\<close>.
\<close>

theorem last_price_only_decreases:
  assumes "primary_key tbl"
  shows "length (table (check_all_prices pyfloat env tbl)) = length tbl \<and>
         (\<forall>i<length tbl.
            table (check_all_prices pyfloat env tbl) ! i = tbl ! i \<or>
            prod_id (table (check_all_prices pyfloat env tbl) ! i) = prod_id (tbl ! i) \<and>
            (\<exists>c old. last_price (table (check_all_prices pyfloat env tbl) ! i) = Some c \<and>
                     last_price (tbl ! i) = Some old \<and> float_lt c old)) \<and>
         (\<forall>pid c t. Updated pid c t \<in> set (trace (check_all_prices pyfloat env tbl)) \<longrightarrow>
            (\<exists>p\<in>set tbl. prod_id p = pid \<and>
               (\<exists>old. last_price p = Some old \<and> float_lt c old))) \<and>
         take (length tbl) (store (handle_link pyfloat renv uid msg tbl)) = tbl"
proof -
  have rows: "table (check_all_prices pyfloat env tbl) ! i = tbl ! i \<or>
            prod_id (table (check_all_prices pyfloat env tbl) ! i) = prod_id (tbl ! i) \<and>
            (\<exists>c old. last_price (table (check_all_prices pyfloat env tbl) ! i) = Some c \<and>
                     last_price (tbl ! i) = Some old \<and> float_lt c old)"
    if "i < length tbl" for i
  proof (cases "observed_drop pyfloat (item_at env i) (tbl ! i)")
    case True
    then obtain c old where "check_price pyfloat (response (item_at env i)) = Some c"
      and "last_price (tbl ! i) = Some old" and "float_lt c old"
      by (auto simp: observed_drop_def split: option.splits)
    then show ?thesis
      by (simp add: check_all_prices_table [OF assms that] bind_real_lt del: All_less_Suc)
  next
    case False
    then show ?thesis
      by (simp add: check_all_prices_table [OF assms that] del: All_less_Suc)
  qed
  have "take (length tbl) (store (handle_link pyfloat renv uid msg tbl)) = tbl"
    using handle_link_store [of pyfloat renv uid msg tbl] by auto
  with rows show ?thesis
    by (auto simp: check_all_prices_length dest: check_all_prices_updates)
qed

theorem last_price_only_decreases_witness:
  "primary_key [widget, gadget] \<and>
   length (table (check_all_prices digits_float all_fine [widget, gadget])) =
     length [widget, gadget] \<and>
   take (length [widget, gadget])
     (store (handle_link digits_float resolvable 7 (py ''u1'') [widget, gadget])) =
     [widget, gadget]"
proof -
  have pk: "primary_key [widget, gadget]"
    by (simp add: primary_key_def widget_def gadget_def)
  from last_price_only_decreases [OF pk, of digits_float all_fine resolvable 7 "py ''u1''"] pk
  show ?thesis by blast
qed


section \<open>Two cycles in succession\<close>

lemma check_item_error_indep: "fst (check_item f oc p tbl) = fst (check_item f oc p [])"
  by (auto simp: check_item_def Let_def split: option.splits)

lemma check_loop_first_abort:
  "j < length ps \<Longrightarrow> \<forall>k<j. \<not> aborts f (env (i + k)) (ps ! k) \<Longrightarrow>
     aborts f (env (i + j)) (ps ! j) \<Longrightarrow>
     fst (check_loop f env i ps tbl) = fst (check_item f (env (i + j)) (ps ! j) [])"
proof (induction ps arbitrary: i j tbl)
  case Nil
  then show ?case by simp
next
  case (Cons p ps)
  show ?case
  proof (cases j)
    case 0
    with Cons.prems(3) show ?thesis
      by (simp add: check_loop_Cons check_item_error_indep [of f "env i" p tbl])
  next
    case (Suc j')
    with Cons.prems have j': "j' < length ps"
      and p: "\<not> aborts f (env i) p"
      and before: "\<forall>k<j'. \<not> aborts f (env (Suc i + k)) (ps ! k)"
      and here: "aborts f (env (Suc i + j')) (ps ! j')"
      by (auto simp: All_less_Suc2 [of j'])
    from Cons.IH [OF j' before here] p Suc show ?thesis
      by (simp add: check_loop_Cons)
  qed
qed

lemma logged_None:
  "logged (check_all_prices f env tbl) = None \<longleftrightarrow>
     select_error env = None \<and> (\<forall>k<length tbl. \<not> aborts f (item_at env k) (tbl ! k))"
proof (cases "select_error env")
  case (Some e)
  then show ?thesis by (simp add: check_all_prices_def)
next
  case None
  with check_loop_error [of f "item_at env" 0 tbl tbl] show ?thesis
    by (simp add: check_all_prices_select)
qed

lemma silent_cycle:
  assumes "\<forall>k<length tbl. \<not> observed_drop f (item_at env k) (tbl ! k)"
  shows "filter is_notification (trace (check_all_prices f env tbl)) = []"
proof (cases "select_error env")
  case (Some e)
  then show ?thesis by (simp add: check_all_prices_def)
next
  case None
  from assms have "\<forall>k<length tbl. \<not> observed_drop f (item_at env (0 + k)) (tbl ! k)"
    by simp
  from check_loop_no_drop [OF this, of tbl] None show ?thesis
    by (simp add: check_all_prices_select)
qed

text \<open>
  C7, as the code has it. The claim fails when the first run was cut short: the store
  write of the first run raises after the notification was delivered, the row keeps the
  price 100, and the second run, which observes the same price 90, notifies again.
\<close>

theorem second_run_notifies_after_write_failure:
  "check_price digits_float (response (item_at all_fine 0)) =
     check_price digits_float (response (item_at write_fails 0)) \<and>
   filter is_notification
     (trace (check_all_prices digits_float all_fine
               (table (check_all_prices digits_float write_fails [widget])))) =
     [Sent 1 7 (PriceDrop (py ''Widget'') (Number 100) (Number 90) (py ''u1''))]"
  by (simp add: write_fails_def all_fine_def scraping_defs cycle_defs)

text \<open>
  C7, amended: if the first run of the cycle ends without a logged exception (the rows
  were fetched and no notification delivery or store write failed), then a second run in
  succession whose lookups return the prices the first run observed produces zero
  notifications, for every starting store state.
\<close>

theorem second_run_is_silent:
  assumes "primary_key tbl"
    and "logged (check_all_prices pyfloat e1 tbl) = None"
    and "\<forall>i<length tbl. check_price pyfloat (response (item_at e2 i)) =
                         check_price pyfloat (response (item_at e1 i))"
  shows "filter is_notification
           (trace (check_all_prices pyfloat e2 (table (check_all_prices pyfloat e1 tbl)))) = []"
proof -
  let ?tbl1 = "table (check_all_prices pyfloat e1 tbl)"
  from assms(2) have sel: "select_error e1 = None"
    and run: "\<forall>k<length tbl. \<not> aborts pyfloat (item_at e1 k) (tbl ! k)"
    by (simp_all add: logged_None)
  have "\<not> observed_drop pyfloat (item_at e2 i) (?tbl1 ! i)" if "i < length tbl" for i
  proof -
    from run that have upto: "\<forall>k<Suc i. \<not> aborts pyfloat (item_at e1 k) (tbl ! k)"
      by simp
    have same: "check_price pyfloat (response (item_at e2 i)) =
                check_price pyfloat (response (item_at e1 i))"
      using assms(3) that by simp
    show ?thesis
    proof (cases "observed_drop pyfloat (item_at e1 i) (tbl ! i)")
      case True
      then obtain c where c: "check_price pyfloat (response (item_at e1 i)) = Some c"
        by (auto simp: observed_drop_def split: option.splits)
      from True upto sel have "last_price (?tbl1 ! i) = bind_real c"
        by (simp add: check_all_prices_table [OF assms(1) that] c del: All_less_Suc)
      with c same show ?thesis
        by (simp add: observed_drop_def bind_real_def float_lt_irrefl)
    next
      case False
      then have "?tbl1 ! i = tbl ! i"
        by (simp add: check_all_prices_table [OF assms(1) that] del: All_less_Suc)
      with False same show ?thesis
        by (simp add: observed_drop_def)
    qed
  qed
  then have "\<forall>k<length ?tbl1. \<not> observed_drop pyfloat (item_at e2 k) (?tbl1 ! k)"
    by (simp add: check_all_prices_length)
  then show ?thesis
    by (rule silent_cycle)
qed

theorem second_run_is_silent_witness:
  "primary_key [widget, gadget] \<and>
   logged (check_all_prices digits_float all_fine [widget, gadget]) = None \<and>
   filter is_notification
     (trace (check_all_prices digits_float all_fine
               (table (check_all_prices digits_float all_fine [widget, gadget])))) = []"
proof -
  have pk: "primary_key [widget, gadget]"
    by (simp add: primary_key_def widget_def gadget_def)
  have run: "logged (check_all_prices digits_float all_fine [widget, gadget]) = None"
    by (simp add: all_fine_def scraping_defs cycle_defs)
  have same: "\<forall>i<length [widget, gadget].
                check_price digits_float (response (item_at all_fine i)) =
                check_price digits_float (response (item_at all_fine i))"
    by simp
  from second_run_is_silent [OF pk run same] pk run
  show ?thesis by blast
qed

text \<open>
  C9: in every cycle each store update directly follows the delivered notification of the
  same row. If, for an item with an observed drop that the loop reaches, the delivery
  succeeds and the store write raises, then the notification is in the trace, the row
  keeps its old values, the exception is the one logged, and a next cycle that reaches
  the item, observes the same price and delivers, sends the same notification again.
\<close>

theorem send_precedes_store_update:
  assumes "primary_key tbl" and "select_error env = None" and "i < length tbl"
    and "\<forall>k<i. \<not> aborts pyfloat (item_at env k) (tbl ! k)"
    and "check_price pyfloat (response (item_at env i)) = Some c"
    and "last_price (tbl ! i) = Some old" and "float_lt c old"
    and "delivery (item_at env i) = None" and "writing (item_at env i) = Some e"
    and "select_error env' = None"
    and "\<forall>k<i. \<not> aborts pyfloat (item_at env' k)
                   (table (check_all_prices pyfloat env tbl) ! k)"
    and "check_price pyfloat (response (item_at env' i)) = Some c"
    and "delivery (item_at env' i) = None"
  shows "send_before_update (trace (check_all_prices pyfloat env tbl)) \<and>
         Sent (prod_id (tbl ! i)) (user_id (tbl ! i))
           (PriceDrop (product_name (tbl ! i)) old c (product_url (tbl ! i)))
           \<in> set (trace (check_all_prices pyfloat env tbl)) \<and>
         table (check_all_prices pyfloat env tbl) ! i = tbl ! i \<and>
         logged (check_all_prices pyfloat env tbl) = Some e \<and>
         Sent (prod_id (tbl ! i)) (user_id (tbl ! i))
           (PriceDrop (product_name (tbl ! i)) old c (product_url (tbl ! i)))
           \<in> set (trace (check_all_prices pyfloat env'
                            (table (check_all_prices pyfloat env tbl))))"
proof -
  let ?r = "check_all_prices pyfloat env tbl"
  let ?sent = "Sent (prod_id (tbl ! i)) (user_id (tbl ! i))
           (PriceDrop (product_name (tbl ! i)) old c (product_url (tbl ! i)))"
  have ab: "aborts pyfloat (item_at env i) (tbl ! i)"
    using assms(5-7,9) by (simp add: aborts_def observed_drop_def)
  have ordered: "send_before_update (trace ?r)"
    using assms(2) by (simp add: check_all_prices_select check_loop_ordered)
  have "?sent \<in> set (snd (snd (check_item pyfloat (item_at env i) (tbl ! i) [])))"
    using assms(5-9) by (simp add: check_item_def)
  then have "?sent \<in> set (filter (\<lambda>e. tag e = prod_id (tbl ! i)) (trace ?r))"
    using check_all_prices_row_events [OF assms(1,3,2), of pyfloat] assms(4) by simp
  then have first: "?sent \<in> set (trace ?r)"
    by simp
  have kept: "table ?r ! i = tbl ! i"
    using ab check_all_prices_table [OF assms(1,3), of pyfloat env] by auto
  have "fst (check_item pyfloat (item_at env i) (tbl ! i) []) = Some e"
    using assms(5-9) by (simp add: check_item_def)
  moreover from assms(4) have "\<forall>k<i. \<not> aborts pyfloat (item_at env (0 + k)) (tbl ! k)"
    by simp
  ultimately have err: "logged ?r = Some e"
    using check_loop_first_abort [OF assms(3) _, of pyfloat "item_at env" 0 tbl] ab assms(2)
    by (simp add: check_all_prices_select)
  have pk: "primary_key (table ?r)"
    using assms(1) by (rule check_all_prices_primary_key)
  have len: "i < length (table ?r)"
    using assms(3) by (simp add: check_all_prices_length)
  have "?sent \<in> set (snd (snd (check_item pyfloat (item_at env' i) (tbl ! i) [])))"
    using assms(6,7,12,13) by (simp add: check_item_def Let_def split: option.splits)
  moreover have "filter (\<lambda>e. tag e = prod_id (tbl ! i))
                   (trace (check_all_prices pyfloat env' (table ?r))) =
                 snd (snd (check_item pyfloat (item_at env' i) (tbl ! i) []))"
    using check_all_prices_row_events [OF pk len assms(10), of pyfloat] assms(11)
    by (simp add: kept)
  ultimately have "?sent \<in> set (filter (\<lambda>e. tag e = prod_id (tbl ! i))
                                 (trace (check_all_prices pyfloat env' (table ?r))))"
    by simp
  then have "?sent \<in> set (trace (check_all_prices pyfloat env' (table ?r)))"
    by simp
  with ordered first kept err show ?thesis
    by simp
qed

theorem send_precedes_store_update_witness:
  "primary_key [widget] \<and> select_error write_fails = None \<and> (0::nat) < length [widget] \<and>
   check_price digits_float (response (item_at write_fails 0)) = Some (Number 90) \<and>
   last_price ([widget] ! 0) = Some (Number 100) \<and>
   float_lt (Number 90) (Number 100) \<and>
   delivery (item_at write_fails 0) = None \<and>
   writing (item_at write_fails 0) = Some OperationalError \<and>
   select_error all_fine = None \<and>
   check_price digits_float (response (item_at all_fine 0)) = Some (Number 90) \<and>
   delivery (item_at all_fine 0) = None \<and>
   Sent (prod_id ([widget] ! 0)) (user_id ([widget] ! 0))
     (PriceDrop (product_name ([widget] ! 0)) (Number 100) (Number 90)
        (product_url ([widget] ! 0)))
     \<in> set (trace (check_all_prices digits_float write_fails [widget])) \<and>
   table (check_all_prices digits_float write_fails [widget]) ! 0 = [widget] ! 0 \<and>
   Sent (prod_id ([widget] ! 0)) (user_id ([widget] ! 0))
     (PriceDrop (product_name ([widget] ! 0)) (Number 100) (Number 90)
        (product_url ([widget] ! 0)))
     \<in> set (trace (check_all_prices digits_float all_fine
                      (table (check_all_prices digits_float write_fails [widget]))))"
proof -
  have pk: "primary_key [widget]"
    by (simp add: primary_key_def)
  have sel: "select_error write_fails = None"
    by (simp add: write_fails_def)
  have len: "(0::nat) < length [widget]"
    by simp
  have before: "\<forall>k<0. \<not> aborts digits_float (item_at write_fails k) ([widget] ! k)"
    by simp
  have price: "check_price digits_float (response (item_at write_fails 0)) = Some (Number 90)"
    by (simp add: write_fails_def scraping_defs)
  have old: "last_price ([widget] ! 0) = Some (Number 100)"
    by (simp add: widget_def)
  have less: "float_lt (Number 90) (Number 100)"
    by simp
  have sent: "delivery (item_at write_fails 0) = None"
    by (simp add: write_fails_def)
  have fails: "writing (item_at write_fails 0) = Some OperationalError"
    by (simp add: write_fails_def)
  have sel': "select_error all_fine = None"
    by (simp add: all_fine_def)
  have before': "\<forall>k<0. \<not> aborts digits_float (item_at all_fine k)
                   (table (check_all_prices digits_float write_fails [widget]) ! k)"
    by simp
  have price': "check_price digits_float (response (item_at all_fine 0)) = Some (Number 90)"
    by (simp add: all_fine_def scraping_defs)
  have sent': "delivery (item_at all_fine 0) = None"
    by (simp add: all_fine_def)
  from send_precedes_store_update
         [OF pk sel len before price old less sent fails sel' before' price' sent']
    pk sel len price old less sent fails sel' price' sent'
  show ?thesis by blast
qed


section \<open>The registrar\<close>




text \<open>
  C6, as the code has it. The claim fails: \<open>get_product_name\<close> returns \<open>None\<close> both
  for a page that cannot be fetched and for a page without a title, and the registrar
  answers both with the same message.
\<close>

theorem transport_error_and_missing_title_same_reply:
  "name_response unreachable = Inl RequestException \<and>
   replied (handle_link digits_float unreachable 7 (py ''u1'') []) = ParseFailed \<and>
   get_product_name_try (name_response untitled) = Inr None \<and>
   replied (handle_link digits_float untitled 7 (py ''u1'') []) = ParseFailed"
  by (simp add: unreachable_def untitled_def handle_link_def scraping_defs)

text \<open>
  C6, amended: for every registrar request that fails in a lookup, the user-facing
  message tells which lookup step failed, the name or the price, not the lookup-failure
  subtype: a transport error in the name step gets the message of a name-not-found
  failure, and a transport error in the price step gets the message of a
  price-not-found or unparseable-price failure.
\<close>

theorem reply_names_failed_lookup:
  "(replied (handle_link pyfloat env uid msg tbl) = ParseFailed \<longleftrightarrow>
      \<not> truthy (get_product_name (name_response env))) \<and>
   (replied (handle_link pyfloat env uid msg tbl) = PriceFailed \<longleftrightarrow>
      truthy (get_product_name (name_response env)) \<and>
      check_price pyfloat (price_response env) = None) \<and>
   (name_response env = Inl e \<or>
    (\<exists>pg. name_response env = Inr pg \<and> title_tag pg = None) \<longrightarrow>
      replied (handle_link pyfloat env uid msg tbl) = ParseFailed) \<and>
   (truthy (get_product_name (name_response env)) \<and>
    (price_response env = Inl e \<or>
     (\<exists>pg. price_response env = Inr pg \<and> price_tag pg = None) \<or>
     (\<exists>pg t. price_response env = Inr pg \<and> price_tag pg = Some t \<and>
        pyfloat (replace_empty comma (replace_empty rupee (strip t))) = None)) \<longrightarrow>
      replied (handle_link pyfloat env uid msg tbl) = PriceFailed)"
  by (auto simp: handle_link_def Let_def get_product_name_def get_product_name_try_def
        check_price_def check_price_try_def truthy_def
      split: option.splits sum.splits)

theorem reply_names_failed_lookup_witness:
  "name_response unreachable = Inl RequestException \<and>
   replied (handle_link digits_float unreachable 7 (py ''u1'') [widget]) = ParseFailed"
proof -
  have resp: "name_response unreachable = Inl RequestException"
    by (simp add: unreachable_def)
  with reply_names_failed_lookup
         [of digits_float unreachable 7 "py ''u1''" "[widget]" RequestException]
  show ?thesis by blast
qed

text \<open>
  C8: the registrar does not deduplicate. When the store already holds an item with the
  subscriber and the product reference of a request, and the request succeeds (name and
  price resolved, \<open>INSERT\<close> done), the store afterwards is the old store, unchanged,
  followed by a new row with the same subscriber and reference and an id that no old row
  has.
\<close>

theorem resend_creates_second_item:
  assumes "p \<in> set tbl" and "user_id p = uid" and "product_url p = strip msg"
    and "truthy (get_product_name (name_response env))"
    and "check_price pyfloat (price_response env) = Some c"
    and "insert_error env = None"
  shows "store (handle_link pyfloat env uid msg tbl) =
           tbl @ [\<lparr>prod_id = next_id tbl, user_id = uid, product_url = strip msg,
                   product_name = the (get_product_name (name_response env)),
                   last_price = bind_real c, last_checked = insert_time env\<rparr>] \<and>
         next_id tbl \<noteq> prod_id p \<and>
         next_id tbl \<notin> prod_id ` set tbl \<and>
         length (store (handle_link pyfloat env uid msg tbl)) = Suc (length tbl) \<and>
         replied (handle_link pyfloat env uid msg tbl) =
           (case confirm_error env of
              None \<Rightarrow> Added (the (get_product_name (name_response env))) c
            | Some e \<Rightarrow> AddError)"
proof -
  have "next_id tbl \<noteq> prod_id p"
    using next_id_greater [OF assms(1)] by simp
  moreover have "store (handle_link pyfloat env uid msg tbl) =
           tbl @ [\<lparr>prod_id = next_id tbl, user_id = uid, product_url = strip msg,
                   product_name = the (get_product_name (name_response env)),
                   last_price = bind_real c, last_checked = insert_time env\<rparr>]"
    using assms(4-6) by (simp add: handle_link_def insert_product_def Let_def)
  moreover have "replied (handle_link pyfloat env uid msg tbl) =
           (case confirm_error env of
              None \<Rightarrow> Added (the (get_product_name (name_response env))) c
            | Some e \<Rightarrow> AddError)"
    using assms(4-6) by (simp add: handle_link_def Let_def)
  ultimately show ?thesis
    using next_id_fresh [of tbl] by simp
qed

theorem resend_creates_second_item_witness:
  "widget \<in> set [widget] \<and> user_id widget = 7 \<and> product_url widget = strip (py ''u1 '') \<and>
   truthy (get_product_name (name_response resolvable)) \<and>
   check_price digits_float (price_response resolvable) = Some (Number 1299) \<and>
   insert_error resolvable = None \<and>
   store (handle_link digits_float resolvable 7 (py ''u1 '') [widget]) =
     [widget,
      \<lparr>prod_id = 2, user_id = 7, product_url = py ''u1'', product_name = py ''Widget'',
       last_price = Some (Number 1299), last_checked = 3\<rparr>]"
proof -
  have mem: "widget \<in> set [widget]"
    by simp
  have user: "user_id widget = 7"
    by (simp add: widget_def)
  have url: "product_url widget = strip (py ''u1 '')"
    by (simp add: widget_def scraping_defs)
  have name: "get_product_name (name_response resolvable) = Some (py ''Widget'')"
    by (simp add: resolvable_def scraping_defs)
  then have named: "truthy (get_product_name (name_response resolvable))"
    by (simp add: truthy_def py_def)
  have price: "check_price digits_float (price_response resolvable) = Some (Number 1299)"
    by (simp add: resolvable_def scraping_defs)
  have ins: "insert_error resolvable = None"
    by (simp add: resolvable_def)
  have at: "insert_time resolvable = 3"
    by (simp add: resolvable_def)
  have new: "next_id [widget] = 2"
    by (simp add: next_id_def widget_def)
  have url': "strip (py ''u1 '') = py ''u1''"
    by (simp add: scraping_defs)
  have bound: "bind_real (Number 1299) = Some (Number 1299)"
    by (simp add: bind_real_def)
  from resend_creates_second_item [OF mem user url named price ins]
    mem user url named price ins name at new url' bound
  show ?thesis by simp
qed

section \<open>The lookup functions\<close>




end
